theory Spec2Isabelle
  imports Complex_Main "HOL-Library.Log_Nat"
begin

section \<open>JavaScript numbers\<close>

text \<open>
  The server computes scores with JavaScript numbers, the binary64 values of IEEE 754.
  A number is modelled as a finite value, held as the rational it denotes, or one of
  the three special values. Every arithmetic operation rounds its exact result to the
  nearest binary64 value, a tie going to the even significand; a result of magnitude
  \<open>2^1024\<close> or more after rounding is an infinity, and results below the normal range
  are rounded to a multiple of \<open>2^-1074\<close>, so they can underflow to zero. Negative zero
  is not told apart from zero: every value of the score computation is non-negative,
  so a zero divisor is always the positive zero.
\<close>

datatype jsnum = Fin rat | PInf | NInf | NaN

text \<open>The binary exponent of a positive rational: \<open>2^e \<le> x < 2^(e+1)\<close>.\<close>

definition ilog2 :: "rat \<Rightarrow> int" where
  "ilog2 x = (if 1 \<le> x then bitlen \<lfloor>x\<rfloor> - 1 else - bitlen (\<lceil>1 / x\<rceil> - 1))"

text \<open>Rounding to the nearest integer, a tie going to the even one.\<close>

definition rhe :: "rat \<Rightarrow> int" where
  "rhe x = (let f = \<lfloor>x\<rfloor>; r = x - of_int f in
     if r < 1 / 2 then f else if 1 / 2 < r then f + 1 else if even f then f else f + 1)"

text \<open>
  The binary64 value nearest to \<open>x\<close>, with no bound on the exponent from above: 53
  significant bits in the normal range, multiples of \<open>2^-1074\<close> below \<open>2^-1022\<close>.
\<close>

definition dbl :: "rat \<Rightarrow> rat" where
  "dbl x = (if x = 0 then 0 else
     let e = max (ilog2 \<bar>x\<bar>) (- 1022); q = 2 powi (e - 52) in of_int (rhe (x / q)) * q)"

text \<open>The rounded result of an operation whose exact result is \<open>x\<close>.\<close>

definition rnd :: "rat \<Rightarrow> jsnum" where
  "rnd x = (let y = dbl x in
     if 2 powi 1024 \<le> y then PInf else if y \<le> - (2 powi 1024) then NInf else Fin y)"

text \<open>The operator \<^verbatim>\<open>*\<close>.\<close>

fun js_mul :: "jsnum \<Rightarrow> jsnum \<Rightarrow> jsnum" where
  "js_mul NaN _ = NaN"
| "js_mul _ NaN = NaN"
| "js_mul (Fin a) (Fin b) = rnd (a * b)"
| "js_mul (Fin a) PInf = (if a = 0 then NaN else if 0 < a then PInf else NInf)"
| "js_mul (Fin a) NInf = (if a = 0 then NaN else if 0 < a then NInf else PInf)"
| "js_mul PInf (Fin b) = (if b = 0 then NaN else if 0 < b then PInf else NInf)"
| "js_mul NInf (Fin b) = (if b = 0 then NaN else if 0 < b then NInf else PInf)"
| "js_mul PInf PInf = PInf"
| "js_mul PInf NInf = NInf"
| "js_mul NInf PInf = NInf"
| "js_mul NInf NInf = PInf"

text \<open>The operator \<^verbatim>\<open>/\<close>; a zero divisor is the positive zero.\<close>

fun js_div :: "jsnum \<Rightarrow> jsnum \<Rightarrow> jsnum" where
  "js_div NaN _ = NaN"
| "js_div _ NaN = NaN"
| "js_div (Fin a) (Fin b) =
     (if b = 0 then (if a = 0 then NaN else if 0 < a then PInf else NInf)
      else rnd (a / b))"
| "js_div (Fin a) PInf = Fin 0"
| "js_div (Fin a) NInf = Fin 0"
| "js_div PInf (Fin b) = (if 0 \<le> b then PInf else NInf)"
| "js_div NInf (Fin b) = (if 0 \<le> b then NInf else PInf)"
| "js_div PInf PInf = NaN"
| "js_div PInf NInf = NaN"
| "js_div NInf PInf = NaN"
| "js_div NInf NInf = NaN"

text \<open>
  \<^verbatim>\<open>Math.pow(0.5, k)\<close> for an integer \<open>k\<close>: the power of two, rounded. It is exact down
  to \<open>2^-1074\<close> and zero from \<open>k = 1075\<close> on.
\<close>

definition pow_half :: "int \<Rightarrow> jsnum" where
  "pow_half k = rnd ((1 / 2) powi k)"

text \<open>\<^verbatim>\<open>Math.round\<close>: the nearest integer, a tie going up; the special values stay.\<close>

fun js_round :: "jsnum \<Rightarrow> jsnum" where
  "js_round (Fin a) = Fin (of_int \<lfloor>a + 1 / 2\<rfloor>)"
| "js_round PInf = PInf"
| "js_round NInf = NInf"
| "js_round NaN = NaN"

text \<open>The operator \<^verbatim>\<open>===\<close> on numbers: \<^verbatim>\<open>NaN\<close> is equal to nothing, itself included.\<close>

fun js_strict_eq :: "jsnum \<Rightarrow> jsnum \<Rightarrow> bool" where
  "js_strict_eq NaN _ = False"
| "js_strict_eq _ NaN = False"
| "js_strict_eq a b = (a = b)"

text \<open>The operator \<^verbatim>\<open><\<close> on numbers: false as soon as one side is \<^verbatim>\<open>NaN\<close>.\<close>

fun js_lt :: "jsnum \<Rightarrow> jsnum \<Rightarrow> bool" where
  "js_lt NaN _ = False"
| "js_lt _ NaN = False"
| "js_lt (Fin a) (Fin b) = (a < b)"
| "js_lt (Fin a) PInf = True"
| "js_lt (Fin a) NInf = False"
| "js_lt PInf _ = False"
| "js_lt NInf PInf = True"
| "js_lt NInf (Fin b) = True"
| "js_lt NInf NInf = False"

section \<open>Lookup tables\<close>

text \<open>
  \<^verbatim>\<open>charnum_difficulty\<close>: 27 entries, indices 0 to 26. Reading a JavaScript array out
  of range gives \<^verbatim>\<open>undefined\<close>, which the multiplication in \<^verbatim>\<open>score\<close> turns into
  \<^verbatim>\<open>NaN\<close>; the lookup below returns that \<^verbatim>\<open>NaN\<close>.
\<close>

definition charnum_difficulty :: "nat list" where
  "charnum_difficulty =
     [1, 26, 325, 2600, 14950, 65780, 230230, 657800, 1562275, 3124550, 5311735,
      7726160, 9657700,
      10400600,
      9657700, 7726160, 5311735, 3124550, 1562275, 657800, 230230, 65780, 14950,
      2600, 325, 26, 1]"

definition charnum_difficulty_at :: "nat \<Rightarrow> jsnum" where
  "charnum_difficulty_at n =
     (if n < length charnum_difficulty then Fin (of_nat (charnum_difficulty ! n)) else NaN)"

text \<open>
  \<^verbatim>\<open>letter_difficulty\<close>: each decimal constant of the source denotes the binary64
  value nearest to it.
\<close>

definition letter_difficulty :: "(char \<times> rat) list" where
  "letter_difficulty =
     [(CHR ''a'', dbl (122444 / 10000)),
      (CHR ''b'', dbl (670241 / 10000)),
      (CHR ''c'', dbl (359454 / 10000)),
      (CHR ''d'', dbl (235128 / 10000)),
      (CHR ''e'', dbl (787278 / 100000)),
      (CHR ''f'', dbl (448833 / 10000)),
      (CHR ''g'', dbl (496278 / 10000)),
      (CHR ''h'', dbl (164096 / 10000)),
      (CHR ''i'', dbl (143554 / 10000)),
      (CHR ''j'', dbl (653595 / 1000)),
      (CHR ''k'', dbl (129534 / 1000)),
      (CHR ''l'', dbl (248447 / 10000)),
      (CHR ''m'', dbl (415628 / 10000)),
      (CHR ''n'', dbl (14817 / 1000)),
      (CHR ''o'', dbl (133209 / 10000)),
      (CHR ''p'', dbl (518403 / 10000)),
      (CHR ''q'', dbl (105263 / 100)),
      (CHR ''r'', dbl (167029 / 10000)),
      (CHR ''s'', dbl (158053 / 10000)),
      (CHR ''t'', dbl (110424 / 10000)),
      (CHR ''u'', dbl (362582 / 10000)),
      (CHR ''v'', dbl (102249 / 1000)),
      (CHR ''w'', dbl (423729 / 10000)),
      (CHR ''x'', dbl (666667 / 1000)),
      (CHR ''y'', dbl (506586 / 10000)),
      (CHR ''z'', dbl (135135 / 100))]"

text \<open>
  \<^verbatim>\<open>letter_difficulty[c] || 1\<close>: every entry of the table is non-zero, so the default
  \<open>1\<close> is taken exactly for a character that has no entry (a digit).
\<close>

definition letter_difficulty_or_1 :: "char \<Rightarrow> rat" where
  "letter_difficulty_or_1 c = (case map_of letter_difficulty c of Some d \<Rightarrow> d | None \<Rightarrow> 1)"

text \<open>The constant \<^verbatim>\<open>0.0001\<close> of \<^verbatim>\<open>score\<close>.\<close>

definition score_scale :: rat where
  "score_scale = dbl (1 / 10000)"

section \<open>Characters, strings and sets\<close>

text \<open>
  A string is a list of UTF-16 code units below 256, the ASCII and Latin-1 characters.
  \<^verbatim>\<open>toLowerCase\<close> maps the 26 capital letters of ASCII to the small ones, the capital
  letters of Latin-1 (code units 192 to 222 except 215, the multiplication sign) to
  the code unit 32 above, and leaves every other character as it is.
\<close>

definition lower_chars :: string where
  "lower_chars = ''abcdefghijklmnopqrstuvwxyz''"

definition upper_chars :: string where
  "upper_chars = ''ABCDEFGHIJKLMNOPQRSTUVWXYZ''"

definition digit_chars :: string where
  "digit_chars = ''0123456789''"

definition latin1_upper :: "char \<Rightarrow> bool" where
  "latin1_upper c = (192 \<le> (of_char c :: nat) \<and> (of_char c :: nat) \<le> 222 \<and> (of_char c :: nat) \<noteq> 215)"

definition toLowerCase_char :: "char \<Rightarrow> char" where
  "toLowerCase_char c =
     (case map_of (zip upper_chars lower_chars) c of
        Some l \<Rightarrow> l
      | None \<Rightarrow> if latin1_upper c then char_of (of_char c + 32 :: nat) else c)"

definition toLowerCase :: "string \<Rightarrow> string" where
  "toLowerCase s = map toLowerCase_char s"

text \<open>
  The character class \<^verbatim>\<open>[a-z0-9]\<close> under the flag \<^verbatim>\<open>i\<close>: a letter of ASCII of either
  case or a digit (without the flag \<^verbatim>\<open>u\<close> no other character is folded onto these).
\<close>

definition alnum_i :: "char \<Rightarrow> bool" where
  "alnum_i c = (c \<in> set lower_chars \<or> c \<in> set upper_chars \<or> c \<in> set digit_chars)"

text \<open>
  A JavaScript \<^verbatim>\<open>Set\<close> keeps its members in insertion order, without repetition: a
  list into which \<^verbatim>\<open>add\<close> appends a member that is not there yet. \<^verbatim>\<open>new Set(xs)\<close> adds
  the members of \<open>xs\<close> from left to right, \<^verbatim>\<open>size\<close> is the length, \<^verbatim>\<open>Array.from\<close> is
  the list itself.
\<close>

definition Set_add :: "'a \<Rightarrow> 'a list \<Rightarrow> 'a list" where
  "Set_add x s = (if x \<in> set s then s else s @ [x])"

definition new_Set :: "'a list \<Rightarrow> 'a list" where
  "new_Set xs = fold Set_add xs []"

section \<open>The game\<close>

record game =
  word :: string
  turns :: nat
  charsNeeded :: "char list"
  charsGuessed :: "char list"

text \<open>
  The constructor of \<^verbatim>\<open>HangmanGame\<close>.
  \<^verbatim>\<open>word.toLowerCase().replace(/[^a-z0-9]/gi, '')\<close> removes every character that is
  neither a letter nor a digit.
\<close>

definition HangmanGame :: "string \<Rightarrow> char list \<Rightarrow> nat \<Rightarrow> game" where
  "HangmanGame w guessed t =
     \<lparr> word = w,
       turns = t,
       charsNeeded = new_Set (filter alnum_i (toLowerCase w)),
       charsGuessed = new_Set guessed \<rparr>"

text \<open>\<^verbatim>\<open>new HangmanGame(word)\<close>, as \<^verbatim>\<open>PUT /api/game\<close> calls it.\<close>

definition newGame :: "string \<Rightarrow> game" where
  "newGame w = HangmanGame w [] 0"

definition won :: "game \<Rightarrow> bool" where
  "won g = (length (charsGuessed g) = length (charsNeeded g))"

definition hiddenWord :: "game \<Rightarrow> string" where
  "hiddenWord g =
     map (\<lambda>c. if alnum_i c \<and> c \<notin> set (charsGuessed g) then CHR ''_'' else c)
       (toLowerCase (word g))"

subsection \<open>The score\<close>

definition bruteforceDifficulty :: "game \<Rightarrow> jsnum" where
  "bruteforceDifficulty g = charnum_difficulty_at (length (charsNeeded g))"

definition avrageLetterDifficulty :: "game \<Rightarrow> jsnum" where
  "avrageLetterDifficulty g =
     js_div
       (fold (\<lambda>c acc. js_mul acc (Fin (letter_difficulty_or_1 c))) (charsNeeded g) (Fin 1))
       (Fin (of_nat (length (charsNeeded g))))"

text \<open>The divisor of the source is \<^verbatim>\<open>min(1, this.charsNeeded.size)\<close>.\<close>

definition turnCoefficient :: "game \<Rightarrow> jsnum" where
  "turnCoefficient g =
     js_div (Fin (of_nat (length (charsGuessed g))))
            (Fin (of_nat (min 1 (length (charsNeeded g)))))"

definition badGuessPenalty :: "game \<Rightarrow> jsnum" where
  "badGuessPenalty g = pow_half (int (turns g) - int (length (charsGuessed g)))"

text \<open>The argument of \<^verbatim>\<open>round\<close>, multiplied from left to right as the source does.\<close>

definition rawScore :: "game \<Rightarrow> jsnum" where
  "rawScore g =
     js_mul (js_mul (js_mul (js_mul (bruteforceDifficulty g) (avrageLetterDifficulty g))
                            (turnCoefficient g))
                    (badGuessPenalty g))
            (Fin score_scale)"

text \<open>\<^verbatim>\<open>return score === NaN ? 0 : score\<close>.\<close>

definition score :: "game \<Rightarrow> jsnum" where
  "score g = (let s = js_round (rawScore g) in if js_strict_eq s NaN then Fin 0 else s)"

text \<open>
  The divisor as the specification words it, \<open>max(1, |charsNeeded|)\<close>, for comparison
  with \<^const>\<open>turnCoefficient\<close>.
\<close>

definition turnCoefficient_spec :: "game \<Rightarrow> jsnum" where
  "turnCoefficient_spec g =
     js_div (Fin (of_nat (length (charsGuessed g))))
            (Fin (of_nat (max 1 (length (charsNeeded g)))))"

subsection \<open>Making a guess\<close>

datatype HttpException = HttpException nat string

text \<open>
  The body of the handler of \<^verbatim>\<open>POST /api/game\<close> between decrypting the game and
  serialising it again. \<^verbatim>\<open>guess.match(/^[a-z0-9]$/i)\<close> holds for a string of exactly
  one letter or digit; \<^verbatim>\<open>charsNeeded.has(guess)\<close> looks the guess up as it was sent.
\<close>

definition applyGuess :: "game \<Rightarrow> string \<Rightarrow> HttpException + game" where
  "applyGuess g guess =
     (if won g then Inl (HttpException 410 ''The game is already won!'')
      else case guess of
        [c] \<Rightarrow>
          if alnum_i c then
            Inr ((if c \<in> set (charsNeeded g)
                  then g\<lparr>charsGuessed := Set_add c (charsGuessed g)\<rparr>
                  else g)\<lparr>turns := turns g + 1\<rparr>)
          else Inl (HttpException 400 ''Your guess must be a single letter or digit!'')
      | _ \<Rightarrow> Inl (HttpException 400 ''Your guess must be a single letter or digit!''))"

text \<open>A sequence of guesses, one request after the other; the first rejected one ends it.\<close>

fun guesses :: "game \<Rightarrow> string list \<Rightarrow> HttpException + game" where
  "guesses g [] = Inr g"
| "guesses g (x # xs) = (case applyGuess g x of Inl e \<Rightarrow> Inl e | Inr g' \<Rightarrow> guesses g' xs)"


subsection \<open>The token\<close>

text \<open>
  The object that \<^verbatim>\<open>serializeState\<close> encrypts, and the state it sends to the player.
\<close>

record token_data =
  td_word :: string
  td_charsGuessed :: "char list"
  td_turns :: nat

record 'tok client_state =
  cs_game :: 'tok
  cs_word :: string
  cs_won :: bool
  cs_score :: jsnum
  cs_turns :: nat

text \<open>
  \<^verbatim>\<open>JSON.stringify\<close>, \<^verbatim>\<open>crypto.publicEncrypt\<close> and the base64 encoding belong to the
  platform, not to this program: together they are the parameter \<open>enc\<close>, which gives
  \<open>None\<close> where the platform throws (the encryption refuses data too large for the
  key). \<^verbatim>\<open>JSON.parse\<close> after \<^verbatim>\<open>crypto.privateDecrypt\<close> after the base64 decoding is
  the parameter \<open>dec\<close>, which gives \<open>None\<close> where the platform throws. The padding of
  the encryption is random; \<open>enc\<close> stands for the encryption under any one choice of
  it. \<^verbatim>\<open>serializeState\<close> throws where the encryption throws.
\<close>

definition serializeState ::
    "(token_data \<Rightarrow> 'tok option) \<Rightarrow> game \<Rightarrow> 'tok client_state option" where
  "serializeState enc g =
     (case enc \<lparr> td_word = word g,
                  td_charsGuessed = charsGuessed g,
                  td_turns = turns g \<rparr> of
        None \<Rightarrow> None
      | Some tok \<Rightarrow>
          Some \<lparr> cs_game = tok,
                 cs_word = hiddenWord g,
                 cs_won = won g,
                 cs_score = score g,
                 cs_turns = turns g \<rparr>)"

definition decrypt :: "('tok \<Rightarrow> token_data option) \<Rightarrow> 'tok \<Rightarrow> game option" where
  "decrypt dec tok =
     (case dec tok of
        None \<Rightarrow> None
      | Some dat \<Rightarrow> Some (HangmanGame (td_word dat) (td_charsGuessed dat) (td_turns dat)))"

section \<open>The high scores\<close>

text \<open>
  An entry \<^verbatim>\<open>{score, nick}\<close>. The score is whatever \<^verbatim>\<open>score()\<close> returned, a
  JavaScript number.
\<close>

record hs_entry =
  hs_score :: jsnum
  hs_nick :: string

text \<open>
  The store, once the file has been read: \<^verbatim>\<open>_max\<close> and \<^verbatim>\<open>value\<close>, and the state of
  the task that writes the file. \<open>hs_signalled\<close> says that the promise \<^verbatim>\<open>syncSlot\<close> the
  task awaits has been resolved through \<^verbatim>\<open>_syncSignal\<close>; \<open>hs_inflight\<close> counts the
  calls of \<^verbatim>\<open>writeFile\<close> that have not completed yet; \<open>hs_written\<close> lists what each
  call of \<^verbatim>\<open>writeFile\<close> was given, the oldest first.
\<close>

record Highscores =
  hs_max :: nat
  hs_value :: "hs_entry list"
  hs_signalled :: bool
  hs_inflight :: nat
  hs_written :: "hs_entry list list"

text \<open>
  The constructor followed by the end of the read: \<open>loaded\<close> is the content of the
  file, the empty list when there is no file. The writing task is awaiting its first
  signal.
\<close>

definition new_Highscores :: "nat \<Rightarrow> hs_entry list \<Rightarrow> Highscores" where
  "new_Highscores m loaded =
     \<lparr> hs_max = m, hs_value = loaded, hs_signalled = False, hs_inflight = 0,
       hs_written = [] \<rparr>"

text \<open>
  \<^verbatim>\<open>Array.prototype.splice(start, deleteCount, ...items)\<close> for a start that is not
  negative: the start is cut to the length, the count to what is left after the start
  and to zero from below.
\<close>

definition Array_splice :: "nat \<Rightarrow> int \<Rightarrow> 'a list \<Rightarrow> 'a list \<Rightarrow> 'a list" where
  "Array_splice start deleteCount items xs =
     (let s = min start (length xs);
          d = nat (min (max deleteCount 0) (int (length xs - s)))
      in take s xs @ items @ drop (s + d) xs)"

text \<open>
  \<^verbatim>\<open>for (; idx > 0 && this.value[idx-1].score < score; idx--);\<close> with the current
  \<open>idx\<close> as the last argument.
\<close>

fun find_idx :: "jsnum \<Rightarrow> hs_entry list \<Rightarrow> nat \<Rightarrow> nat" where
  "find_idx s v 0 = 0"
| "find_idx s v (Suc i) = (if js_lt (hs_score (v ! i)) s then find_idx s v i else Suc i)"

text \<open>\<^verbatim>\<open>add\<close>, from the end of its wait for the file on.\<close>

definition add :: "hs_entry \<Rightarrow> Highscores \<Rightarrow> Highscores" where
  "add e st =
     (let idx = find_idx (hs_score e) (hs_value st) (length (hs_value st)) in
      if idx < hs_max st then
        (let v1 = Array_splice idx 0 [\<lparr>hs_score = hs_score e, hs_nick = hs_nick e\<rparr>] (hs_value st);
             v2 = Array_splice (hs_max st) (int (length v1) - int (hs_max st)) [] v1
         in st\<lparr>hs_value := v2, hs_signalled := True\<rparr>)
      else st)"

text \<open>
  The handler of \<^verbatim>\<open>POST /api/highscore\<close>, from the decrypted game on. A nick is bad
  when it does not begin with a word character (a letter of ASCII, a digit or the
  underscore) or is longer than 16 characters.
\<close>

definition badNick :: "string \<Rightarrow> bool" where
  "badNick nick =
     (case nick of
        [] \<Rightarrow> True
      | c # _ \<Rightarrow> \<not> (alnum_i c \<or> c = CHR ''_'') \<or> length nick < 1 \<or> 16 < length nick)"

definition post_highscore :: "game \<Rightarrow> string \<Rightarrow> Highscores \<Rightarrow> HttpException + Highscores" where
  "post_highscore g nick st =
     (let s = score g in
      if \<not> won g then Inl (HttpException 400 ''The game is not yet won!'')
      else if badNick nick then
        Inl (HttpException 400
          ''Nick must be a string between 1 and 16 chars and contain no special chars.'')
      else Inr (add \<lparr>hs_score = s, hs_nick = nick\<rparr> st))"

subsection \<open>The task that writes the file\<close>

text \<open>
  The server runs on one thread, so its behaviour is a sequence of events. \<open>Add\<close> is a
  call of \<^verbatim>\<open>add\<close>. \<open>SyncWake\<close> is one turn of the loop of \<^verbatim>\<open>_startHighscoreSync\<close>: it
  can happen once the awaited \<^verbatim>\<open>syncSlot\<close> is resolved, puts a fresh promise in its
  place, calls \<^verbatim>\<open>writeFile\<close> with the current value, does not await the result, and
  awaits the fresh promise. \<open>WriteDone\<close> is the completion of one call of \<^verbatim>\<open>writeFile\<close>
  that is under way. An event that cannot happen in a state gives \<open>None\<close>.
\<close>

datatype event = Add hs_entry | SyncWake | WriteDone

fun hs_step :: "event \<Rightarrow> Highscores \<Rightarrow> Highscores option" where
  "hs_step (Add e) st = Some (add e st)"
| "hs_step SyncWake st =
     (if hs_signalled st
      then Some (st\<lparr>hs_signalled := False,
                    hs_inflight := Suc (hs_inflight st),
                    hs_written := hs_written st @ [hs_value st]\<rparr>)
      else None)"
| "hs_step WriteDone st =
     (if 0 < hs_inflight st then Some (st\<lparr>hs_inflight := hs_inflight st - 1\<rparr>) else None)"

fun hs_run :: "event list \<Rightarrow> Highscores \<Rightarrow> Highscores option" where
  "hs_run [] st = Some st"
| "hs_run (ev # evs) st = (case hs_step ev st of None \<Rightarrow> None | Some st' \<Rightarrow> hs_run evs st')"

section \<open>Invariant of the game\<close>

definition game_inv :: "game \<Rightarrow> bool" where
  "game_inv g =
     (set (charsGuessed g) \<subseteq> set (charsNeeded g) \<and> length (charsGuessed g) \<le> turns g)"

section \<open>Auxiliary notions for the proofs\<close>



section \<open>Rounding to binary64\<close>

lemma ilog2_lower: assumes "0 < x" shows "2 powi ilog2 x \<le> x"
proof (cases "1 \<le> x")
  case True
  define n where "n = \<lfloor>x\<rfloor>"
  have n: "0 < n" using True unfolding n_def by simp
  have b: "1 \<le> bitlen n" using n by (simp add: bitlen_alt_def)
  have "(2::int) ^ nat (bitlen n - 1) \<le> n" using bitlen_bounds [OF n] by simp
  then have "(of_int ((2::int) ^ nat (bitlen n - 1)) :: rat) \<le> of_int n"
    by (simp only: of_int_le_iff)
  also have "\<dots> \<le> x" unfolding n_def by simp
  finally have "(2::rat) ^ nat (bitlen n - 1) \<le> x" by simp
  moreover have "ilog2 x = bitlen n - 1" using True by (simp add: ilog2_def n_def)
  ultimately show ?thesis using b by (simp add: power_int_nonneg_exp)
next
  case False
  define t where "t = 1 / x"
  define m where "m = \<lceil>t\<rceil> - 1"
  have t1: "1 < t" using False assms by (simp add: t_def)
  then have "1 < \<lceil>t\<rceil>" by (simp add: less_ceiling_iff)
  then have m: "0 < m" by (simp add: m_def)
  have b: "1 \<le> bitlen m" using m by (simp add: bitlen_alt_def)
  have "t \<le> of_int \<lceil>t\<rceil>" by simp
  also have "\<dots> = of_int (m + 1)" by (simp add: m_def)
  also have "m + 1 \<le> 2 ^ nat (bitlen m)" using bitlen_bounds [OF m] by simp
  finally have "t \<le> of_int (2 ^ nat (bitlen m))" by (simp only: of_int_le_iff)
  then have "t \<le> 2 ^ nat (bitlen m)" by simp
  then have "1 / 2 ^ nat (bitlen m) \<le> x"
    using assms by (simp add: t_def field_simps)
  moreover have "ilog2 x = - bitlen m" using False by (simp add: ilog2_def m_def t_def)
  ultimately show ?thesis using b
    by (simp add: power_int_minus_divide power_int_nonneg_exp)
qed

lemma ilog2_upper: assumes "0 < x" shows "x < 2 powi (ilog2 x + 1)"
proof (cases "1 \<le> x")
  case True
  define n where "n = \<lfloor>x\<rfloor>"
  have n: "0 < n" using True unfolding n_def by simp
  have b: "1 \<le> bitlen n" using n by (simp add: bitlen_alt_def)
  have "x < of_int (n + 1)" unfolding n_def by linarith
  also have "n + 1 \<le> 2 ^ nat (bitlen n)" using bitlen_bounds [OF n] by simp
  finally have "x < of_int (2 ^ nat (bitlen n))" by (simp only: of_int_le_iff)
  then have "x < 2 ^ nat (bitlen n)" by simp
  moreover have "ilog2 x = bitlen n - 1" using True by (simp add: ilog2_def n_def)
  ultimately show ?thesis using b by (simp add: power_int_nonneg_exp)
next
  case False
  define t where "t = 1 / x"
  define m where "m = \<lceil>t\<rceil> - 1"
  have t1: "1 < t" using False assms by (simp add: t_def)
  then have "1 < \<lceil>t\<rceil>" by (simp add: less_ceiling_iff)
  then have m: "0 < m" by (simp add: m_def)
  have b: "1 \<le> bitlen m" using m by (simp add: bitlen_alt_def)
  have "(2::int) ^ nat (bitlen m - 1) \<le> m" using bitlen_bounds [OF m] by simp
  then have "(of_int ((2::int) ^ nat (bitlen m - 1)) :: rat) \<le> of_int m"
    by (simp only: of_int_le_iff)
  also have "(of_int m :: rat) < t" unfolding m_def by linarith
  finally have "2 ^ nat (bitlen m - 1) < t" by simp
  then have "x < 1 / 2 ^ nat (bitlen m - 1)"
    using assms by (simp add: t_def field_simps)
  moreover have "ilog2 x = - bitlen m" using False by (simp add: ilog2_def m_def t_def)
  moreover have "- bitlen m + 1 = - (bitlen m - 1)" by simp
  ultimately show ?thesis using b
    by (simp only: power_int_minus_divide) (simp add: power_int_nonneg_exp)
qed

lemma ilog2_unique:
  assumes "0 < x" and "2 powi e \<le> x" and "x < 2 powi (e + 1)"
  shows "ilog2 x = e"
proof (rule ccontr)
  assume ne: "ilog2 x \<noteq> e"
  show False
  proof (cases "ilog2 x < e")
    case True
    then have "(2::rat) powi (ilog2 x + 1) \<le> 2 powi e"
      by (intro power_int_increasing) simp_all
    with ilog2_upper [OF assms(1)] assms(2) show False by simp
  next
    case False
    with ne have "(2::rat) powi (e + 1) \<le> 2 powi ilog2 x"
      by (intro power_int_increasing) simp_all
    with ilog2_lower [OF assms(1)] assms(3) show False by simp
  qed
qed

lemma ilog2_ge: assumes "0 < x" and "2 powi i \<le> x" shows "i \<le> ilog2 x"
proof (rule ccontr)
  assume "\<not> i \<le> ilog2 x"
  then have "(2::rat) powi (ilog2 x + 1) \<le> 2 powi i"
    by (intro power_int_increasing) simp_all
  with ilog2_upper [OF assms(1)] assms(2) show False by simp
qed


lemma ilog2_mono: assumes "0 < x" and "x \<le> y" shows "ilog2 x \<le> ilog2 y"
proof -
  have "2 powi ilog2 x \<le> y" using ilog2_lower [OF assms(1)] assms(2) by simp
  moreover have "0 < y" using assms by simp
  ultimately show ?thesis by (intro ilog2_ge)
qed

lemma rhe_floor: "\<lfloor>x\<rfloor> \<le> rhe x" and rhe_floor1: "rhe x \<le> \<lfloor>x\<rfloor> + 1"
  by (simp_all add: rhe_def Let_def)

lemma rhe_of_int: "rhe (of_int n) = n"
  by (simp add: rhe_def Let_def)

lemma rhe_ge: assumes "of_int n \<le> x" shows "n \<le> rhe x"
proof -
  have "n \<le> \<lfloor>x\<rfloor>" using assms by (simp add: le_floor_iff)
  with rhe_floor [of x] show ?thesis by simp
qed

lemma rhe_le: assumes "x \<le> of_int n" shows "rhe x \<le> n"
proof (cases "x = of_int n")
  case True
  then show ?thesis by (simp add: rhe_of_int)
next
  case False
  with assms have "x < of_int n" by simp
  then have "\<lfloor>x\<rfloor> < n" by (simp add: floor_less_iff)
  with rhe_floor1 [of x] show ?thesis by simp
qed

lemma rhe_mono: assumes "x \<le> y" shows "rhe x \<le> rhe y"
proof (cases "\<lfloor>x\<rfloor> = \<lfloor>y\<rfloor>")
  case True
  with assms show ?thesis by (auto simp: rhe_def Let_def)
next
  case False
  moreover have "\<lfloor>x\<rfloor> \<le> \<lfloor>y\<rfloor>" using assms by (rule floor_mono)
  ultimately have "\<lfloor>x\<rfloor> + 1 \<le> \<lfloor>y\<rfloor>" by simp
  with rhe_floor1 [of x] rhe_floor [of y] show ?thesis by simp
qed


lemma dbl_pos:
  "0 < x \<Longrightarrow> dbl x =
     of_int (rhe (x / 2 powi (max (ilog2 x) (- 1022) - 52))) * 2 powi (max (ilog2 x) (- 1022) - 52)"
  by (simp add: dbl_def Let_def)

lemma pow2_split: "(2::rat) powi (a + b) = 2 powi a * 2 powi b"
  by (rule power_int_add) simp

lemma pow2_diff: "(2::rat) powi (a - b) = 2 powi a / 2 powi b"
  by (rule power_int_diff) simp

lemma dbl_nonneg: assumes "0 \<le> x" shows "0 \<le> dbl x"
proof (cases "x = 0")
  case True
  then show ?thesis by (simp add: dbl_def)
next
  case False
  with assms have x: "0 < x" by simp
  let ?q = "(2::rat) powi (max (ilog2 x) (- 1022) - 52)"
  have "of_int 0 \<le> x / ?q" using x by simp
  then have "0 \<le> rhe (x / ?q)" by (rule rhe_ge)
  then show ?thesis by (simp add: dbl_pos [OF x])
qed

lemma dbl_upper_binade:
  assumes x: "0 < x" shows "dbl x \<le> 2 powi (max (ilog2 x) (- 1022) + 1)"
proof -
  let ?e = "max (ilog2 x) (- 1022)"
  let ?q = "(2::rat) powi (?e - 52)"
  have "x < 2 powi (ilog2 x + 1)" using x by (rule ilog2_upper)
  also have "\<dots> \<le> 2 powi (?e + 1)" by (intro power_int_increasing) simp_all
  finally have "x / ?q \<le> 2 powi (?e + 1) / ?q"
    by (intro divide_right_mono) simp_all
  also have "\<dots> = 2 powi ((?e + 1) - (?e - 52))" by (simp only: pow2_diff)
  also have "\<dots> = of_int (2 ^ 53)" by simp
  finally have "rhe (x / ?q) \<le> 2 ^ 53" by (rule rhe_le)
  then have "(of_int (rhe (x / ?q)) :: rat) \<le> of_int (2 ^ 53)" by (simp only: of_int_le_iff)
  then have "of_int (rhe (x / ?q)) * ?q \<le> of_int (2 ^ 53) * ?q"
    by (intro mult_right_mono) simp_all
  also have "\<dots> = 2 powi 53 * ?q" by simp
  also have "\<dots> = 2 powi (53 + (?e - 52))" by (simp only: pow2_split)
  also have "53 + (?e - 52) = ?e + 1" by simp
  finally show ?thesis by (simp only: dbl_pos [OF x])
qed

lemma dbl_lower_binade:
  assumes x: "0 < x" and n: "- 1022 \<le> ilog2 x" shows "2 powi ilog2 x \<le> dbl x"
proof -
  let ?e = "ilog2 x"
  let ?q = "(2::rat) powi (?e - 52)"
  have e: "max ?e (- 1022) = ?e" using n by simp
  have "of_int (2 ^ 52) = (2::rat) powi 52" by simp
  also have "\<dots> = 2 powi (?e - (?e - 52))" by simp
  also have "\<dots> = 2 powi ?e / ?q" by (simp only: pow2_diff)
  also have "\<dots> \<le> x / ?q"
    using ilog2_lower [OF x] by (intro divide_right_mono) simp_all
  finally have "2 ^ 52 \<le> rhe (x / ?q)" by (rule rhe_ge)
  then have "(of_int (2 ^ 52) :: rat) \<le> of_int (rhe (x / ?q))" by (simp only: of_int_le_iff)
  then have r: "of_int (2 ^ 52) * ?q \<le> of_int (rhe (x / ?q)) * ?q"
    by (intro mult_right_mono) simp_all
  have "52 + (?e - 52) = ?e" by simp
  then have "2 powi ?e = 2 powi 52 * ?q" by (simp only: pow2_split [symmetric])
  also have "\<dots> = of_int (2 ^ 52) * ?q" by simp
  also note r
  finally show ?thesis by (simp only: dbl_pos [OF x] e)
qed

lemma dbl_mono: assumes "0 \<le> x" and "x \<le> y" shows "dbl x \<le> dbl y"
proof (cases "x = 0")
  case True
  then show ?thesis using dbl_nonneg [of y] assms by (simp add: dbl_def)
next
  case False
  with assms have x: "0 < x" and y: "0 < y" by simp_all
  let ?ex = "max (ilog2 x) (- 1022)" and ?ey = "max (ilog2 y) (- 1022)"
  have "ilog2 x \<le> ilog2 y" using x assms(2) by (rule ilog2_mono)
  then have le: "?ex \<le> ?ey" by simp
  show ?thesis
  proof (cases "?ex = ?ey")
    case True
    let ?q = "(2::rat) powi (?ey - 52)"
    have "x / ?q \<le> y / ?q" using assms(2) by (intro divide_right_mono) simp_all
    then have "rhe (x / ?q) \<le> rhe (y / ?q)" by (rule rhe_mono)
    then have "(of_int (rhe (x / ?q)) :: rat) \<le> of_int (rhe (y / ?q))"
      by (simp only: of_int_le_iff)
    then have "of_int (rhe (x / ?q)) * ?q \<le> of_int (rhe (y / ?q)) * ?q"
      by (intro mult_right_mono) simp_all
    then show ?thesis by (simp only: dbl_pos [OF x] dbl_pos [OF y] True)
  next
    case False
    with le have lt: "?ex + 1 \<le> ?ey" by simp
    then have ey: "?ey = ilog2 y" and n: "- 1022 \<le> ilog2 y" by simp_all
    have "dbl x \<le> 2 powi (?ex + 1)" using x by (rule dbl_upper_binade)
    also have "\<dots> \<le> 2 powi ?ey" using lt by (intro power_int_increasing) simp_all
    also have "\<dots> = 2 powi ilog2 y" by (simp only: ey)
    also have "\<dots> \<le> dbl y" using y n by (rule dbl_lower_binade)
    finally show ?thesis .
  qed
qed

lemma ilog2_pow2: "ilog2 (2 powi i) = i"
  by (rule ilog2_unique) (simp_all add: power_int_strict_increasing)

lemma dbl_pow2: assumes "- 1074 \<le> i" shows "dbl (2 powi i) = 2 powi i"
proof -
  let ?e = "max i (- 1022)"
  let ?q = "(2::rat) powi (?e - 52)"
  have k: "0 \<le> i - (?e - 52)" using assms by simp
  have "2 powi i / ?q = 2 powi (i - (?e - 52))" by (simp only: pow2_diff)
  also have "\<dots> = of_int (2 ^ nat (i - (?e - 52)))" using k by (simp add: power_int_nonneg_exp)
  finally have "rhe (2 powi i / ?q) = 2 ^ nat (i - (?e - 52))" by (simp only: rhe_of_int)
  then have "of_int (rhe (2 powi i / ?q)) * ?q = 2 powi (i - (?e - 52)) * ?q"
    using k by (simp add: power_int_nonneg_exp)
  also have "\<dots> = 2 powi ((i - (?e - 52)) + (?e - 52))" by (simp only: pow2_split)
  also have "(i - (?e - 52)) + (?e - 52) = i" by simp
  finally show ?thesis
    using dbl_pos [of "2 powi i"] by (simp add: ilog2_pow2)
qed

lemma dbl_le_pow2: assumes "0 \<le> x" and "x \<le> 2 powi i" and "- 1074 \<le> i" shows "dbl x \<le> 2 powi i"
  using dbl_mono [OF assms(1,2)] dbl_pow2 [OF assms(3)] by simp





lemma pow2_1024_pos: "dbl 0 < 2 powi 1024"
  unfolding dbl_def by (simp del: power_int_numeral)

lemma rnd_nonneg:
  assumes "0 \<le> x" shows "rnd x = (if 2 powi 1024 \<le> dbl x then PInf else Fin (dbl x))"
proof -
  have "0 \<le> dbl x" using assms by (rule dbl_nonneg)
  moreover have "- ((2::rat) powi 1024) < 0" by (simp del: power_int_numeral)
  ultimately have "\<not> dbl x \<le> - (2 powi 1024)" by linarith
  then show ?thesis by (simp only: rnd_def Let_def if_False)
qed

lemma rnd_0: "rnd 0 = Fin 0"
proof -
  have "\<not> (2::rat) powi 1024 \<le> 0" by (simp del: power_int_numeral add: not_le)
  then show ?thesis by (simp add: rnd_nonneg dbl_def del: power_int_numeral)
qed

lemma rnd_pow2: assumes "- 1074 \<le> i" and "i < 1024" shows "rnd (2 powi i) = Fin (2 powi i)"
proof -
  have "(2::rat) powi i < 2 powi 1024"
    using assms(2) by (intro power_int_strict_increasing) simp_all
  then have "\<not> (2::rat) powi 1024 \<le> 2 powi i" by (simp only: not_le)
  moreover have "0 \<le> (2::rat) powi i" by simp
  ultimately show ?thesis
    by (simp only: rnd_nonneg dbl_pow2 [OF assms(1)] if_False)
qed

lemma rnd_1: "rnd 1 = Fin 1"
  using rnd_pow2 [of 0] by simp

lemma rnd_half: "rnd (1 / 2) = Fin (1 / 2)"
  using rnd_pow2 [of "- 1"] by simp

section \<open>Sets\<close>

lemma set_Set_add: "set (Set_add x s) = insert x (set s)"
  by (auto simp: Set_add_def)

lemma distinct_Set_add: "distinct s \<Longrightarrow> distinct (Set_add x s)"
  by (simp add: Set_add_def)

lemma length_Set_add: "length (Set_add x s) \<le> Suc (length s)"
  by (simp add: Set_add_def)


lemma fold_Set_add_distinct: "distinct acc \<Longrightarrow> distinct (fold Set_add xs acc)"
  by (induction xs arbitrary: acc) (auto simp: distinct_Set_add)

lemma fold_Set_add_id:
  "distinct xs \<Longrightarrow> set xs \<inter> set acc = {} \<Longrightarrow> fold Set_add xs acc = acc @ xs"
  by (induction xs arbitrary: acc) (auto simp: Set_add_def)


lemma distinct_new_Set: "distinct (new_Set xs)"
  by (simp add: new_Set_def fold_Set_add_distinct)

lemma new_Set_distinct_id: "distinct xs \<Longrightarrow> new_Set xs = xs"
  by (simp add: new_Set_def fold_Set_add_id)

lemma new_Set_Nil: "new_Set [] = []"
  by (simp add: new_Set_def)

section \<open>Evaluating concrete games\<close>

lemmas game_eval =
  newGame_def HangmanGame_def new_Set_def Set_add_def toLowerCase_def toLowerCase_char_def
  latin1_upper_def alnum_i_def lower_chars_def upper_chars_def digit_chars_def won_def
  applyGuess_def

section \<open>Steps of a game\<close>

lemma applyGuess_Inr:
  "applyGuess g x = Inr g' \<Longrightarrow>
     \<not> won g \<and> (\<exists>c. x = [c] \<and> alnum_i c \<and>
        g' = (if c \<in> set (charsNeeded g)
              then g\<lparr>charsGuessed := Set_add c (charsGuessed g)\<rparr> else g)\<lparr>turns := turns g + 1\<rparr>)"
  by (auto simp: applyGuess_def split: if_splits list.splits)

lemma applyGuess_inv:
  assumes "game_inv g" and "applyGuess g x = Inr g'"
  shows "game_inv g'"
proof -
  from assms(2) obtain c where
    g': "g' = (if c \<in> set (charsNeeded g)
               then g\<lparr>charsGuessed := Set_add c (charsGuessed g)\<rparr> else g)\<lparr>turns := turns g + 1\<rparr>"
    using applyGuess_Inr by blast
  show ?thesis
  proof (cases "c \<in> set (charsNeeded g)")
    case True
    have "length (Set_add c (charsGuessed g)) \<le> Suc (length (charsGuessed g))"
      by (rule length_Set_add)
    with assms(1) True show ?thesis
      by (simp add: g' game_inv_def set_Set_add)
  next
    case False
    with assms(1) show ?thesis
      by (simp add: g' game_inv_def)
  qed
qed

lemma guesses_inv: "game_inv g \<Longrightarrow> guesses g xs = Inr g' \<Longrightarrow> game_inv g'"
  by (induction xs arbitrary: g) (auto split: sum.splits dest: applyGuess_inv)

lemma newGame_inv: "game_inv (newGame w)"
  by (simp add: game_inv_def newGame_def HangmanGame_def new_Set_Nil)


lemma applyGuess_frame:
  "applyGuess g x = Inr g' \<Longrightarrow> word g' = word g \<and> charsNeeded g' = charsNeeded g"
  by (auto dest!: applyGuess_Inr)

lemma guesses_frame:
  "guesses g xs = Inr g' \<Longrightarrow> word g' = word g \<and> charsNeeded g' = charsNeeded g"
  by (induction xs arbitrary: g) (auto split: sum.splits dest: applyGuess_frame)

lemma applyGuess_distinct:
  "distinct (charsGuessed g) \<Longrightarrow> applyGuess g x = Inr g' \<Longrightarrow> distinct (charsGuessed g')"
  by (auto dest!: applyGuess_Inr simp: distinct_Set_add)

lemma guesses_distinct:
  "distinct (charsGuessed g) \<Longrightarrow> guesses g xs = Inr g' \<Longrightarrow> distinct (charsGuessed g')"
  by (induction xs arbitrary: g) (auto split: sum.splits dest: applyGuess_distinct)

lemma HangmanGame_rebuild:
  assumes "guesses (newGame w) xs = Inr g"
  shows "HangmanGame (word g) (charsGuessed g) (turns g) = g"
proof -
  have w: "word g = w" and n: "charsNeeded g = new_Set (filter alnum_i (toLowerCase w))"
    using guesses_frame [OF assms] by (simp_all add: newGame_def HangmanGame_def)
  have "distinct (charsGuessed (newGame w))"
    by (simp add: newGame_def HangmanGame_def new_Set_Nil)
  then have "distinct (charsGuessed g)"
    using assms by (rule guesses_distinct)
  then have "new_Set (charsGuessed g) = charsGuessed g"
    by (rule new_Set_distinct_id)
  with w n show ?thesis
    by (simp add: HangmanGame_def)
qed







section \<open>The turn coefficient\<close>

text \<open>
  Claim C1. The specification gives the turn coefficient as
  \<open>|charsGuessed| / max(1, |charsNeeded|)\<close>. The source divides by
  \<^verbatim>\<open>min(1, this.charsNeeded.size)\<close>: after the guess \<open>a\<close> in the word \<open>ab\<close> the
  coefficient is \<open>1\<close> where the specification gives \<open>1/2\<close>, and for a word without
  letters and digits the division is \<open>0/0\<close>, which is \<^verbatim>\<open>NaN\<close>, where the specification
  gives \<open>0\<close>.
\<close>

theorem turnCoefficient_divides_by_min:
  "guesses (newGame ''ab'') [''a''] = Inr (HangmanGame ''ab'' ''a'' 1) \<and>
   turnCoefficient (HangmanGame ''ab'' ''a'' 1) = Fin 1 \<and>
   turnCoefficient_spec (HangmanGame ''ab'' ''a'' 1) = Fin (1 / 2) \<and>
   turnCoefficient (newGame ''?!'') = NaN \<and>
   turnCoefficient_spec (newGame ''?!'') = Fin 0"
  by (simp add: game_eval turnCoefficient_def turnCoefficient_spec_def rnd_1 rnd_half rnd_0)

section \<open>The token\<close>

text \<open>
  Claim C2. Let \<open>g\<close> be a game reached from a new game by accepted guesses. When the
  platform encrypts the data of \<open>g\<close> to a token and decrypts that token to the same
  data, \<open>serializeState\<close> returns a state with this token, and \<open>decrypt\<close> rebuilds from
  it a game equal to \<open>g\<close>: the same word, the same guessed characters in the same
  order, the same turns, and the needed characters derived again from the word.
\<close>

theorem decrypt_serializeState:
  assumes "guesses (newGame w) xs = Inr g"
      and "enc \<lparr>td_word = word g, td_charsGuessed = charsGuessed g, td_turns = turns g\<rparr> = Some tok"
      and "dec tok = Some \<lparr>td_word = word g, td_charsGuessed = charsGuessed g, td_turns = turns g\<rparr>"
  shows "\<exists>cs. serializeState enc g = Some cs \<and> cs_game cs = tok \<and>
              decrypt dec (cs_game cs) = Some g"
  using assms(2,3) HangmanGame_rebuild [OF assms(1)]
  by (simp add: decrypt_def serializeState_def)

text \<open>
  The round trip on the game after the guesses \<open>a\<close> and \<open>x\<close> in the word \<open>ab\<close>, with
  a token that holds the three fields in another order and an encryption that refuses
  words of more than 20 characters.
\<close>

theorem decrypt_serializeState_witness:
  "guesses (newGame ''ab'') [''a'', ''x''] =
     Inr \<lparr>word = ''ab'', turns = 2, charsNeeded = ''ab'', charsGuessed = ''a''\<rparr> \<and>
   (\<lambda>p. if length (td_word p) \<le> 20 then Some (td_turns p, td_charsGuessed p, td_word p) else None)
     \<lparr>td_word = ''ab'', td_charsGuessed = ''a'', td_turns = 2\<rparr> = Some (2, ''a'', ''ab'') \<and>
   (\<lambda>(t, c, w). Some \<lparr>td_word = w, td_charsGuessed = c, td_turns = t\<rparr>) (2, ''a'', ''ab'') =
     Some \<lparr>td_word = ''ab'', td_charsGuessed = ''a'', td_turns = 2\<rparr> \<and>
   (\<exists>cs. serializeState
           (\<lambda>p. if length (td_word p) \<le> 20
                then Some (td_turns p, td_charsGuessed p, td_word p) else None)
           \<lparr>word = ''ab'', turns = 2, charsNeeded = ''ab'', charsGuessed = ''a''\<rparr> = Some cs \<and>
         cs_game cs = (2, ''a'', ''ab'') \<and>
         decrypt (\<lambda>(t, c, w). Some \<lparr>td_word = w, td_charsGuessed = c, td_turns = t\<rparr>) (cs_game cs) =
           Some \<lparr>word = ''ab'', turns = 2, charsNeeded = ''ab'', charsGuessed = ''a''\<rparr>)"
proof -
  let ?g = "\<lparr>word = ''ab'', turns = 2, charsNeeded = ''ab'', charsGuessed = ''a''\<rparr>"
  let ?enc = "\<lambda>p. if length (td_word p) \<le> 20
                then Some (td_turns p, td_charsGuessed p, td_word p) else None"
  let ?dec = "\<lambda>(t, c, w). Some \<lparr>td_word = w, td_charsGuessed = c, td_turns = t\<rparr>"
  have r: "guesses (newGame ''ab'') [''a'', ''x''] = Inr ?g"
    by (simp add: game_eval)
  have e: "?enc \<lparr>td_word = word ?g, td_charsGuessed = charsGuessed ?g, td_turns = turns ?g\<rparr> =
      Some (2, ''a'', ''ab'')"
    by simp
  have d: "?dec (2, ''a'', ''ab'') =
      Some \<lparr>td_word = word ?g, td_charsGuessed = charsGuessed ?g, td_turns = turns ?g\<rparr>"
    by simp
  from decrypt_serializeState [where enc = ?enc and dec = ?dec, OF r e d] r e d
  show ?thesis
    by simp
qed

section \<open>Guesses and the case of letters\<close>

text \<open>
  Claim C3. The specification says that a guess is compared without regard to case, so
  that guessing every needed character once, in any case, wins the game. The handler
  accepts a capital letter (its pattern has the flag \<^verbatim>\<open>i\<close>) but looks it up, as it
  was sent, in the set of lower-cased characters: the guesses \<open>H\<close> and \<open>I\<close> for the
  word \<open>Hi\<close> are both accepted, count as two turns, add nothing to
  \<open>charsGuessed\<close>, and the game is not won.
\<close>

theorem applyGuess_capital_letter:
  "guesses (newGame ''Hi'') [''H'', ''I''] =
     Inr \<lparr>word = ''Hi'', turns = 2, charsNeeded = ''hi'', charsGuessed = []\<rparr> \<and>
   \<not> won \<lparr>word = ''Hi'', turns = 2, charsNeeded = ''hi'', charsGuessed = []\<rparr>"
  by (simp add: game_eval)

section \<open>The value of the score\<close>

lemmas score_eval =
  score_def rawScore_def bruteforceDifficulty_def avrageLetterDifficulty_def
  turnCoefficient_def badGuessPenalty_def charnum_difficulty_at_def
  charnum_difficulty_def

text \<open>
  Claim C4. The specification says that the score is a non-negative integer, \<open>0\<close> when
  the computation does not give a real number. The source tests
  \<^verbatim>\<open>score === NaN\<close>, which is false for every number, so a \<^verbatim>\<open>NaN\<close> is returned as
  it is: the game of a word without letters and digits is won from the start and its
  score is \<^verbatim>\<open>NaN\<close>.
\<close>

theorem score_returns_NaN:
  "won (newGame ''?!'') \<and> score (newGame ''?!'') = NaN"
  by (simp add: game_eval score_eval)

section \<open>The invariants\<close>

text \<open>
  Claim C6. Every game reached from a new game by accepted guesses has
  \<open>charsGuessed \<subseteq> charsNeeded\<close> and \<open>turns \<ge> |charsGuessed|\<close> (both sets are lists
  without repetition, so the length is the size), and one accepted guess keeps both
  properties in any game that has them.
\<close>

theorem game_invariants:
  "(guesses (newGame w) xs = Inr g \<longrightarrow>
      set (charsGuessed g) \<subseteq> set (charsNeeded g) \<and> length (charsGuessed g) \<le> turns g \<and>
      distinct (charsGuessed g) \<and> distinct (charsNeeded g)) \<and>
   (set (charsGuessed h) \<subseteq> set (charsNeeded h) \<and> length (charsGuessed h) \<le> turns h \<and>
    applyGuess h x = Inr h' \<longrightarrow>
      set (charsGuessed h') \<subseteq> set (charsNeeded h') \<and> length (charsGuessed h') \<le> turns h')"
proof (intro conjI impI)
  assume r: "guesses (newGame w) xs = Inr g"
  have i: "game_inv g"
    using newGame_inv r by (rule guesses_inv)
  show "set (charsGuessed g) \<subseteq> set (charsNeeded g)" and "length (charsGuessed g) \<le> turns g"
    using i by (simp_all add: game_inv_def)
  have "distinct (charsGuessed (newGame w))"
    by (simp add: newGame_def HangmanGame_def new_Set_Nil)
  then show "distinct (charsGuessed g)"
    using r by (rule guesses_distinct)
  have "charsNeeded g = charsNeeded (newGame w)"
    using guesses_frame [OF r] by simp
  then show "distinct (charsNeeded g)"
    by (simp add: newGame_def HangmanGame_def distinct_new_Set)
next
  assume a: "set (charsGuessed h) \<subseteq> set (charsNeeded h) \<and> length (charsGuessed h) \<le> turns h \<and>
    applyGuess h x = Inr h'"
  then have "game_inv h" by (simp add: game_inv_def)
  then have i: "game_inv h'" using a by (blast intro: applyGuess_inv)
  show "set (charsGuessed h') \<subseteq> set (charsNeeded h')" and "length (charsGuessed h') \<le> turns h'"
    using i by (simp_all add: game_inv_def)
qed

text \<open>
  The word \<open>ab\<close>: the guesses \<open>a\<close> and \<open>x\<close> reach a game with the two properties, and
  the guess \<open>b\<close> keeps them.
\<close>

theorem game_invariants_witness:
  "guesses (newGame ''ab'') [''a'', ''x''] =
     Inr \<lparr>word = ''ab'', turns = 2, charsNeeded = ''ab'', charsGuessed = ''a''\<rparr> \<and>
   set ''a'' \<subseteq> set ''ab'' \<and> length ''a'' \<le> (2::nat) \<and>
   applyGuess \<lparr>word = ''ab'', turns = 2, charsNeeded = ''ab'', charsGuessed = ''a''\<rparr> ''b'' =
     Inr \<lparr>word = ''ab'', turns = 3, charsNeeded = ''ab'', charsGuessed = ''ab''\<rparr> \<and>
   set ''ab'' \<subseteq> set ''ab'' \<and> length ''ab'' \<le> (3::nat)"
proof -
  have r: "guesses (newGame ''ab'') [''a'', ''x''] =
     Inr \<lparr>word = ''ab'', turns = 2, charsNeeded = ''ab'', charsGuessed = ''a''\<rparr>"
    by (simp add: game_eval)
  have s: "applyGuess \<lparr>word = ''ab'', turns = 2, charsNeeded = ''ab'', charsGuessed = ''a''\<rparr> ''b'' =
     Inr \<lparr>word = ''ab'', turns = 3, charsNeeded = ''ab'', charsGuessed = ''ab''\<rparr>"
    by (simp add: game_eval)
  from game_invariants [of "''ab''" "[''a'', ''x'']"
      "\<lparr>word = ''ab'', turns = 2, charsNeeded = ''ab'', charsGuessed = ''a''\<rparr>"
      "\<lparr>word = ''ab'', turns = 2, charsNeeded = ''ab'', charsGuessed = ''a''\<rparr>"
      "''b''"
      "\<lparr>word = ''ab'', turns = 3, charsNeeded = ''ab'', charsGuessed = ''ab''\<rparr>"] r s
  show ?thesis
    by simp
qed

section \<open>The new game\<close>




section \<open>Inserting a high score\<close>

lemma find_idx_le: "find_idx s v n \<le> n"
  by (induction n) auto

lemma find_idx_after: "find_idx s v n \<le> j \<Longrightarrow> j < n \<Longrightarrow> js_lt (hs_score (v ! j)) s"
proof (induction n)
  case 0
  then show ?case by simp
next
  case (Suc n)
  show ?case
  proof (cases "js_lt (hs_score (v ! n)) s")
    case True
    with Suc show ?thesis by (cases "j = n") auto
  next
    case False
    with Suc.prems show ?thesis by simp
  qed
qed

lemma find_idx_stop: "find_idx s v n = Suc k \<Longrightarrow> \<not> js_lt (hs_score (v ! k)) s"
  by (induction n) (auto split: if_splits)

lemma splice_insert:
  "i \<le> length xs \<Longrightarrow> Array_splice i 0 [e] xs = take i xs @ e # drop i xs"
  by (simp add: Array_splice_def Let_def min_def)

lemma splice_truncate: "Array_splice m (int (length xs) - int m) [] xs = take m xs"
proof (cases "m \<le> length xs")
  case True
  then have "nat (min (max (int (length xs) - int m) 0) (int (length xs - m))) = length xs - m"
    by arith
  with True show ?thesis
    by (simp add: Array_splice_def Let_def min_def)
next
  case False
  then have "nat (min (max (int (length xs) - int m) 0) (int (length xs - length xs))) = 0"
    by simp
  with False show ?thesis
    by (simp add: Array_splice_def Let_def min_def)
qed

lemma add_keep:
  "hs_max st \<le> find_idx (hs_score e) (hs_value st) (length (hs_value st)) \<Longrightarrow> add e st = st"
  by (simp add: add_def Let_def)

lemma add_value:
  assumes "find_idx (hs_score e) (hs_value st) (length (hs_value st)) = idx" and "idx < hs_max st"
  shows "add e st = st\<lparr>hs_value := take (hs_max st) (take idx (hs_value st) @ e # drop idx (hs_value st)),
                        hs_signalled := True\<rparr>"
proof -
  have "idx \<le> length (hs_value st)"
    using assms(1) find_idx_le by blast
  then have "Array_splice idx 0 [\<lparr>hs_score = hs_score e, hs_nick = hs_nick e\<rparr>] (hs_value st) =
      take idx (hs_value st) @ e # drop idx (hs_value st)"
    by (simp add: splice_insert)
  then show ?thesis
    using assms by (simp add: add_def Let_def splice_truncate)
qed

text \<open>
  What \<open>add\<close> does for any scores: every entry from the index on compares lower than
  the new score, the entry before the index does not, a submission whose index is not
  below the capacity leaves the store as it was, and any other is inserted at the
  index, the list then being cut to the capacity.
\<close>

lemma add_inserts_at_index:
  "(let v = hs_value st; s = hs_score e; idx = find_idx s v (length v) in
      idx \<le> length v \<and>
      (\<forall>j<length v. idx \<le> j \<longrightarrow> js_lt (hs_score (v ! j)) s) \<and>
      (0 < idx \<longrightarrow> \<not> js_lt (hs_score (v ! (idx - 1))) s) \<and>
      (hs_max st \<le> idx \<longrightarrow> add e st = st) \<and>
      (idx < hs_max st \<longrightarrow>
         hs_value (add e st) = take (hs_max st) (take idx v @ e # drop idx v)))"
proof -
  define v where "v = hs_value st"
  define s where "s = hs_score e"
  define idx where "idx = find_idx s v (length v)"
  have 1: "idx \<le> length v"
    unfolding idx_def by (rule find_idx_le)
  have 2: "\<forall>j<length v. idx \<le> j \<longrightarrow> js_lt (hs_score (v ! j)) s"
    unfolding idx_def using find_idx_after by blast
  have 3: "0 < idx \<longrightarrow> \<not> js_lt (hs_score (v ! (idx - 1))) s"
  proof
    assume "0 < idx"
    then have "idx = Suc (idx - 1)" by simp
    then have "find_idx s v (length v) = Suc (idx - 1)" by (simp only: idx_def [symmetric])
    then show "\<not> js_lt (hs_score (v ! (idx - 1))) s" by (rule find_idx_stop)
  qed
  have 4: "hs_max st \<le> idx \<longrightarrow> add e st = st"
    unfolding idx_def v_def s_def using add_keep by blast
  have 5: "idx < hs_max st \<longrightarrow>
         hs_value (add e st) = take (hs_max st) (take idx v @ e # drop idx v)"
  proof
    assume "idx < hs_max st"
    with add_value [of e st idx] show
      "hs_value (add e st) = take (hs_max st) (take idx v @ e # drop idx v)"
      unfolding idx_def v_def s_def by simp
  qed
  from 1 2 3 4 5 show ?thesis
    unfolding Let_def idx_def v_def s_def by (simp only: simp_thms)
qed

lemmas hs_eval = add_def Let_def Array_splice_def new_Highscores_def

text \<open>
  Claim C5. The specification says that the store keeps the highest scores in
  descending order: seven scores submitted to a store of capacity five leave the top
  five. The handler of \<^verbatim>\<open>POST /api/highscore\<close> passes what \<^verbatim>\<open>score()\<close> returns to
  \<open>add\<close> unchecked, and \<^verbatim>\<open>score()\<close> returns \<^verbatim>\<open>NaN\<close> for the won game of a word without
  letters and digits (the defect of claim C4). The comparison
  \<^verbatim>\<open>this.value[idx-1].score < score\<close> is false as soon as one side is \<^verbatim>\<open>NaN\<close>: the
  scan never moves past an entry with the score \<^verbatim>\<open>NaN\<close>, and a submission with the
  score \<^verbatim>\<open>NaN\<close> goes to the end. So the game of \<open>?!\<close> puts \<^verbatim>\<open>NaN\<close> on an empty board, a
  later 265 goes behind it, and after five such entries a score of 5000 is dropped.
\<close>

theorem NaN_score_on_the_board:
  "post_highscore (newGame ''?!'') ''eve'' (new_Highscores 5 []) =
     Inr \<lparr>hs_max = 5, hs_value = [\<lparr>hs_score = NaN, hs_nick = ''eve''\<rparr>],
          hs_signalled = True, hs_inflight = 0, hs_written = []\<rparr> \<and>
   hs_value (add \<lparr>hs_score = Fin 265, hs_nick = ''gorge''\<rparr> (new_Highscores 5 [\<lparr>hs_score = NaN, hs_nick = ''eve''\<rparr>])) = [\<lparr>hs_score = NaN, hs_nick = ''eve''\<rparr>, \<lparr>hs_score = Fin 265, hs_nick = ''gorge''\<rparr>] \<and>
   hs_value (fold add [\<lparr>hs_score = NaN, hs_nick = ''ann''\<rparr>, \<lparr>hs_score = NaN, hs_nick = ''bob''\<rparr>, \<lparr>hs_score = NaN, hs_nick = ''cat''\<rparr>, \<lparr>hs_score = NaN, hs_nick = ''dan''\<rparr>, \<lparr>hs_score = NaN, hs_nick = ''eve''\<rparr>, \<lparr>hs_score = Fin 5000, hs_nick = ''adam''\<rparr>, \<lparr>hs_score = Fin 265, hs_nick = ''gorge''\<rparr>]
              (new_Highscores 5 [])) =
     [\<lparr>hs_score = NaN, hs_nick = ''ann''\<rparr>, \<lparr>hs_score = NaN, hs_nick = ''bob''\<rparr>, \<lparr>hs_score = NaN, hs_nick = ''cat''\<rparr>, \<lparr>hs_score = NaN, hs_nick = ''dan''\<rparr>, \<lparr>hs_score = NaN, hs_nick = ''eve''\<rparr>]"
proof -
  have s: "score (newGame ''?!'') = NaN" and w: "won (newGame ''?!'')"
    by (simp_all add: game_eval score_eval)
  have b: "\<not> badNick ''eve''"
    by (simp add: badNick_def alnum_i_def lower_chars_def)
  have 1: "post_highscore (newGame ''?!'') ''eve'' (new_Highscores 5 []) =
     Inr \<lparr>hs_max = 5, hs_value = [\<lparr>hs_score = NaN, hs_nick = ''eve''\<rparr>],
          hs_signalled = True, hs_inflight = 0, hs_written = []\<rparr>"
    by (simp add: post_highscore_def s w b hs_eval)
  have 2: "hs_value (add \<lparr>hs_score = Fin 265, hs_nick = ''gorge''\<rparr> (new_Highscores 5 [\<lparr>hs_score = NaN, hs_nick = ''eve''\<rparr>])) = [\<lparr>hs_score = NaN, hs_nick = ''eve''\<rparr>, \<lparr>hs_score = Fin 265, hs_nick = ''gorge''\<rparr>]"
    by (simp add: hs_eval)
  have 3: "hs_value (fold add [\<lparr>hs_score = NaN, hs_nick = ''ann''\<rparr>, \<lparr>hs_score = NaN, hs_nick = ''bob''\<rparr>, \<lparr>hs_score = NaN, hs_nick = ''cat''\<rparr>, \<lparr>hs_score = NaN, hs_nick = ''dan''\<rparr>, \<lparr>hs_score = NaN, hs_nick = ''eve''\<rparr>, \<lparr>hs_score = Fin 5000, hs_nick = ''adam''\<rparr>, \<lparr>hs_score = Fin 265, hs_nick = ''gorge''\<rparr>]
              (new_Highscores 5 [])) =
     [\<lparr>hs_score = NaN, hs_nick = ''ann''\<rparr>, \<lparr>hs_score = NaN, hs_nick = ''bob''\<rparr>, \<lparr>hs_score = NaN, hs_nick = ''cat''\<rparr>, \<lparr>hs_score = NaN, hs_nick = ''dan''\<rparr>, \<lparr>hs_score = NaN, hs_nick = ''eve''\<rparr>]"
    by (simp add: hs_eval)
  from 1 2 3 show ?thesis by (intro conjI)
qed

section \<open>A dropped submission\<close>

text \<open>
  Claim C10. When the index that \<open>add\<close> computes is not below the capacity, the store
  is exactly as before: the entries are unchanged and the signal is not fired, so the
  writing task, if it was waiting, cannot wake, and whatever happens next happens as if
  the submission had not been made.
\<close>

theorem add_dropped_is_silent:
  assumes "hs_max st \<le> find_idx (hs_score e) (hs_value st) (length (hs_value st))"
  shows "add e st = st \<and>
         hs_value (add e st) = hs_value st \<and>
         hs_signalled (add e st) = hs_signalled st \<and>
         (\<not> hs_signalled st \<longrightarrow> hs_step SyncWake (add e st) = None) \<and>
         hs_run (Add e # evs) st = hs_run evs st"
proof -
  have k: "add e st = st"
    using assms by (rule add_keep)
  then show ?thesis by simp
qed

text \<open>A score of \<open>0\<close> submitted to a full store of capacity two.\<close>

theorem add_dropped_is_silent_witness:
  "(2::nat) \<le> find_idx (Fin 0) [\<lparr>hs_score = Fin 9, hs_nick = ''a''\<rparr>, \<lparr>hs_score = Fin 7, hs_nick = ''b''\<rparr>] 2 \<and>
   add \<lparr>hs_score = Fin 0, hs_nick = ''naga''\<rparr>
       (new_Highscores 2 [\<lparr>hs_score = Fin 9, hs_nick = ''a''\<rparr>, \<lparr>hs_score = Fin 7, hs_nick = ''b''\<rparr>]) =
     new_Highscores 2 [\<lparr>hs_score = Fin 9, hs_nick = ''a''\<rparr>, \<lparr>hs_score = Fin 7, hs_nick = ''b''\<rparr>] \<and>
   hs_step SyncWake (add \<lparr>hs_score = Fin 0, hs_nick = ''naga''\<rparr>
       (new_Highscores 2 [\<lparr>hs_score = Fin 9, hs_nick = ''a''\<rparr>, \<lparr>hs_score = Fin 7, hs_nick = ''b''\<rparr>])) = None \<and>
   hs_run [Add \<lparr>hs_score = Fin 0, hs_nick = ''naga''\<rparr>, SyncWake]
       (new_Highscores 2 [\<lparr>hs_score = Fin 9, hs_nick = ''a''\<rparr>, \<lparr>hs_score = Fin 7, hs_nick = ''b''\<rparr>]) = None"
proof -
  let ?v2 = "[\<lparr>hs_score = Fin 9, hs_nick = ''a''\<rparr>, \<lparr>hs_score = Fin 7, hs_nick = ''b''\<rparr>]"
  have i: "hs_max (new_Highscores 2 ?v2) \<le>
      find_idx (hs_score \<lparr>hs_score = Fin 0, hs_nick = ''naga''\<rparr>) (hs_value (new_Highscores 2 ?v2))
        (length (hs_value (new_Highscores 2 ?v2)))"
    by (simp add: new_Highscores_def numeral_2_eq_2)
  have s: "\<not> hs_signalled (new_Highscores 2 ?v2)"
    by (simp add: new_Highscores_def)
  have j: "(2::nat) \<le> find_idx (Fin 0) ?v2 2"
    by (simp add: numeral_2_eq_2)
  from add_dropped_is_silent [OF i, of "[SyncWake]"] s j show ?thesis
    by (simp add: new_Highscores_def)
qed

section \<open>The task that writes the file\<close>

lemma SyncWake_after_signal:
  "hs_step SyncWake st = Some st' \<Longrightarrow>
     hs_signalled st \<and> \<not> hs_signalled st' \<and> hs_written st' = hs_written st @ [hs_value st]"
  by (auto split: if_splits)

text \<open>
  Claim C9. The specification says that at most one write of the file is under way at
  a time. The loop calls \<^verbatim>\<open>writeFile\<close> without awaiting its promise and at once awaits
  the next signal, so a second submission that arrives before the first write has
  completed starts a second write: after two submissions, each followed by a turn of
  the loop, two writes are in flight. The comment in the source states the intent
  (one sync at a time, since overlapping writes to one file are undefined).
\<close>

theorem two_writes_in_flight:
  "hs_run [Add \<lparr>hs_score = Fin 27, hs_nick = ''pamela''\<rparr>, SyncWake,
           Add \<lparr>hs_score = Fin 265, hs_nick = ''gorge''\<rparr>, SyncWake]
          (new_Highscores 5 []) =
     Some \<lparr>hs_max = 5,
           hs_value = [\<lparr>hs_score = Fin 265, hs_nick = ''gorge''\<rparr>, \<lparr>hs_score = Fin 27, hs_nick = ''pamela''\<rparr>],
           hs_signalled = False,
           hs_inflight = 2,
           hs_written = [[\<lparr>hs_score = Fin 27, hs_nick = ''pamela''\<rparr>],
                         [\<lparr>hs_score = Fin 265, hs_nick = ''gorge''\<rparr>, \<lparr>hs_score = Fin 27, hs_nick = ''pamela''\<rparr>]]\<rparr>"
  by (simp add: hs_eval)

section \<open>Incorrect guesses and the score\<close>

subsection \<open>The operations are monotone\<close>






















subsection \<open>Evaluating a rounding\<close>

lemma rhe_near:
  assumes "2 * of_int n - 1 < 2 * y" and "2 * y < 2 * of_int n + 1" shows "rhe y = n"
proof (cases "of_int n \<le> y")
  case True
  have "\<lfloor>y\<rfloor> = n" using True assms by (simp add: floor_eq_iff)
  then show ?thesis using assms by (simp add: rhe_def Let_def)
next
  case False
  have f: "\<lfloor>y\<rfloor> = n - 1" using False assms by (simp add: floor_eq_iff)
  have "1 / 2 < y - of_int (n - 1)" using assms by simp
  then show ?thesis unfolding rhe_def Let_def f by simp
qed

lemma dbl_eval:
  assumes "2 powi e \<le> x" and "x < 2 powi (e + 1)" and "- 1022 \<le> e"
      and "2 * of_int n - 1 < 2 * (x / 2 powi (e - 52))"
      and "2 * (x / 2 powi (e - 52)) < 2 * of_int n + 1"
  shows "dbl x = of_int n * 2 powi (e - 52)"
proof -
  have "0 < (2::rat) powi e" by (rule zero_less_power_int) simp
  from this assms(1) have x: "0 < x" by (rule less_le_trans)
  from x assms(1,2) have i: "ilog2 x = e" by (rule ilog2_unique)
  have m: "max e (- 1022) = e" using assms(3) by simp
  have r: "rhe (x / 2 powi (e - 52)) = n" using assms(4,5) by (rule rhe_near)
  show ?thesis using x by (simp add: dbl_def Let_def i m r del: power_int_numeral)
qed

lemma rnd_small: assumes "0 \<le> x" and "x \<le> 2 powi 128" shows "rnd x = Fin (dbl x)"
proof -
  have "dbl x \<le> 2 powi 128" using assms by (rule dbl_le_pow2) simp
  also have "(2::rat) powi 128 < 2 powi 1024" by (intro power_int_strict_increasing) simp_all
  finally have "\<not> 2 powi 1024 \<le> dbl x" by (simp only: not_le)
  then show ?thesis by (simp only: rnd_nonneg [OF assms(1)] if_False)
qed

lemma dbl_c1: "dbl (30611 / 2500) = 6892984409671913 / 562949953421312"
proof -
  have "dbl (30611 / 2500) = of_int 6892984409671913 * 2 powi (3 - 52)"
    by (rule dbl_eval [where e = "3" and n = 6892984409671913]) simp_all
  then show ?thesis by simp
qed

lemma dbl_c2: "dbl (6892984409671913 / 562949953421312) = 6892984409671913 / 562949953421312"
proof -
  have "dbl (6892984409671913 / 562949953421312) = of_int 6892984409671913 * 2 powi (3 - 52)"
    by (rule dbl_eval [where e = "3" and n = 6892984409671913]) simp_all
  then show ?thesis by simp
qed

lemma dbl_c3: "dbl (666667 / 1000) = 5864064946836341 / 8796093022208"
proof -
  have "dbl (666667 / 1000) = of_int 5864064946836341 * 2 powi (9 - 52)"
    by (rule dbl_eval [where e = "9" and n = 5864064946836341]) simp_all
  then show ?thesis by simp
qed

lemma dbl_c4: "dbl (40420908255846453858231115390333 / 4951760157141521099596496896) = 4487622302190181 / 549755813888"
proof -
  have "dbl (40420908255846453858231115390333 / 4951760157141521099596496896) = of_int 8975244604380362 * 2 powi (12 - 52)"
    by (rule dbl_eval [where e = "12" and n = 8975244604380362]) simp_all
  then show ?thesis by simp
qed

lemma dbl_c5: "dbl (4487622302190181 / 1099511627776) = 4487622302190181 / 1099511627776"
proof -
  have "dbl (4487622302190181 / 1099511627776) = of_int 8975244604380362 * 2 powi (11 - 52)"
    by (rule dbl_eval [where e = "11" and n = 8975244604380362]) simp_all
  then show ?thesis by simp
qed

lemma dbl_c6: "dbl (2) = 2"
proof -
  have "dbl (2) = of_int 4503599627370496 * 2 powi (1 - 52)"
    by (rule dbl_eval [where e = "1" and n = 4503599627370496]) simp_all
  then show ?thesis by simp
qed

lemma dbl_c7: "dbl (1) = 1"
proof -
  have "dbl (1) = of_int 4503599627370496 * 2 powi (0 - 52)"
    by (rule dbl_eval [where e = "0" and n = 4503599627370496]) simp_all
  then show ?thesis by simp
qed

lemma dbl_c8: "dbl (1458477248211808825 / 1099511627776) = 2848588375413689 / 2147483648"
proof -
  have "dbl (1458477248211808825 / 1099511627776) = of_int 5697176750827378 * 2 powi (20 - 52)"
    by (rule dbl_eval [where e = "20" and n = 5697176750827378]) simp_all
  then show ?thesis by simp
qed

lemma dbl_c9: "dbl (2848588375413689 / 1073741824) = 2848588375413689 / 1073741824"
proof -
  have "dbl (2848588375413689 / 1073741824) = of_int 5697176750827378 * 2 powi (21 - 52)"
    by (rule dbl_eval [where e = "21" and n = 5697176750827378]) simp_all
  then show ?thesis by simp
qed

lemma dbl_c10: "dbl (1 / 10000) = 7378697629483821 / 73786976294838206464"
proof -
  have "dbl (1 / 10000) = of_int 7378697629483821 * 2 powi (- 14 - 52)"
    by (rule dbl_eval [where e = "- 14" and n = 7378697629483821]) simp_all
  then show ?thesis by simp
qed

lemma dbl_c11: "dbl (21018872293040155794824407425669 / 79228162514264337593543950336) = 1166781798569447 / 4398046511104"
proof -
  have "dbl (21018872293040155794824407425669 / 79228162514264337593543950336) = of_int 4667127194277788 * 2 powi (8 - 52)"
    by (rule dbl_eval [where e = "8" and n = 4667127194277788]) simp_all
  then show ?thesis by simp
qed

lemma dbl_c12: "dbl (1 / 2) = 1 / 2"
proof -
  have "dbl (1 / 2) = of_int 4503599627370496 * 2 powi (- 1 - 52)"
    by (rule dbl_eval [where e = "- 1" and n = 4503599627370496]) simp_all
  then show ?thesis by simp
qed

lemma dbl_c13: "dbl (2848588375413689 / 2147483648) = 2848588375413689 / 2147483648"
proof -
  have "dbl (2848588375413689 / 2147483648) = of_int 5697176750827378 * 2 powi (20 - 52)"
    by (rule dbl_eval [where e = "20" and n = 5697176750827378]) simp_all
  then show ?thesis by simp
qed

lemma dbl_c14: "dbl (21018872293040155794824407425669 / 158456325028528675187087900672) = 1166781798569447 / 8796093022208"
proof -
  have "dbl (21018872293040155794824407425669 / 158456325028528675187087900672) = of_int 4667127194277788 * 2 powi (7 - 52)"
    by (rule dbl_eval [where e = "7" and n = 4667127194277788]) simp_all
  then show ?thesis by simp
qed

lemma dbl_c15: "dbl (89608797325734869 / 281474976710656) = 5600549832858429 / 17592186044416"
proof -
  have "dbl (89608797325734869 / 281474976710656) = of_int 5600549832858429 * 2 powi (8 - 52)"
    by (rule dbl_eval [where e = "8" and n = 5600549832858429]) simp_all
  then show ?thesis by simp
qed

lemma dbl_c16: "dbl (5600549832858429 / 17592186044416) = 5600549832858429 / 17592186044416"
proof -
  have "dbl (5600549832858429 / 17592186044416) = of_int 5600549832858429 * 2 powi (8 - 52)"
    by (rule dbl_eval [where e = "8" and n = 5600549832858429]) simp_all
  then show ?thesis by simp
qed

lemma dbl_c17: "dbl (41324763775518499975648238977209 / 1298074214633706907132624082305024) = 4587970423077625 / 144115188075855872"
proof -
  have "dbl (41324763775518499975648238977209 / 1298074214633706907132624082305024) = of_int 4587970423077625 * 2 powi (- 5 - 52)"
    by (rule dbl_eval [where e = "- 5" and n = 4587970423077625]) simp_all
  then show ?thesis by simp
qed

lemma dbl_c18: "dbl (5600549832858429 / 35184372088832) = 5600549832858429 / 35184372088832"
proof -
  have "dbl (5600549832858429 / 35184372088832) = of_int 5600549832858429 * 2 powi (7 - 52)"
    by (rule dbl_eval [where e = "7" and n = 5600549832858429]) simp_all
  then show ?thesis by simp
qed

lemma dbl_c19: "dbl (41324763775518499975648238977209 / 2596148429267413814265248164610048) = 4587970423077625 / 288230376151711744"
proof -
  have "dbl (41324763775518499975648238977209 / 2596148429267413814265248164610048) = of_int 4587970423077625 * 2 powi (- 6 - 52)"
    by (rule dbl_eval [where e = "- 6" and n = 4587970423077625]) simp_all
  then show ?thesis by simp
qed

lemma dbl_c20: "dbl (670241 / 10000) = 2358200873319085 / 35184372088832"
proof -
  have "dbl (670241 / 10000) = of_int 4716401746638170 * 2 powi (6 - 52)"
    by (rule dbl_eval [where e = "6" and n = 4716401746638170]) simp_all
  then show ?thesis by simp
qed

lemma dbl_c21: "dbl (16255041854663142810540211359605 / 19807040628566084398385987584) = 7218688693317051 / 8796093022208"
proof -
  have "dbl (16255041854663142810540211359605 / 19807040628566084398385987584) = of_int 7218688693317051 * 2 powi (9 - 52)"
    by (rule dbl_eval [where e = "9" and n = 7218688693317051]) simp_all
  then show ?thesis by simp
qed

lemma dbl_c22: "dbl (7218688693317051 / 17592186044416) = 7218688693317051 / 17592186044416"
proof -
  have "dbl (7218688693317051 / 17592186044416) = of_int 7218688693317051 * 2 powi (8 - 52)"
    by (rule dbl_eval [where e = "8" and n = 7218688693317051]) simp_all
  then show ?thesis by simp
qed

lemma dbl_c23: "dbl (2346073825328041575 / 17592186044416) = 4582175440093831 / 34359738368"
proof -
  have "dbl (2346073825328041575 / 17592186044416) = of_int 4582175440093831 * 2 powi (17 - 52)"
    by (rule dbl_eval [where e = "17" and n = 4582175440093831]) simp_all
  then show ?thesis by simp
qed

lemma dbl_c24: "dbl (4582175440093831 / 17179869184) = 4582175440093831 / 17179869184"
proof -
  have "dbl (4582175440093831 / 17179869184) = of_int 4582175440093831 * 2 powi (18 - 52)"
    by (rule dbl_eval [where e = "18" and n = 4582175440093831]) simp_all
  then show ?thesis by simp
qed

lemma dbl_c25: "dbl (4582175440093831 / 34359738368) = 4582175440093831 / 34359738368"
proof -
  have "dbl (4582175440093831 / 34359738368) = of_int 4582175440093831 * 2 powi (17 - 52)"
    by (rule dbl_eval [where e = "17" and n = 4582175440093831]) simp_all
  then show ?thesis by simp
qed

lemma dbl_c26: "dbl (33810487057699335040828336408251 / 2535301200456458802993406410752) = 7507436241049733 / 562949953421312"
proof -
  have "dbl (33810487057699335040828336408251 / 2535301200456458802993406410752) = of_int 7507436241049733 * 2 powi (3 - 52)"
    by (rule dbl_eval [where e = "3" and n = 7507436241049733]) simp_all
  then show ?thesis by simp
qed

lemma dbl_c27: "dbl (33810487057699335040828336408251 / 1267650600228229401496703205376) = 7507436241049733 / 281474976710656"
proof -
  have "dbl (33810487057699335040828336408251 / 1267650600228229401496703205376) = of_int 7507436241049733 * 2 powi (4 - 52)"
    by (rule dbl_eval [where e = "4" and n = 7507436241049733]) simp_all
  then show ?thesis by simp
qed

lemma dbl_c28: "dbl (179727 / 5000) = 5058865313927607 / 140737488355328"
proof -
  have "dbl (179727 / 5000) = of_int 5058865313927607 * 2 powi (5 - 52)"
    by (rule dbl_eval [where e = "5" and n = 5058865313927607]) simp_all
  then show ?thesis by simp
qed

lemma dbl_c29: "dbl (5058865313927607 / 140737488355328) = 5058865313927607 / 140737488355328"
proof -
  have "dbl (5058865313927607 / 140737488355328) = of_int 5058865313927607 * 2 powi (5 - 52)"
    by (rule dbl_eval [where e = "5" and n = 5058865313927607]) simp_all
  then show ?thesis by simp
qed

lemma dbl_c30: "dbl (34870679739533002975356303202191 / 79228162514264337593543950336) = 7742846306231899 / 17592186044416"
proof -
  have "dbl (34870679739533002975356303202191 / 79228162514264337593543950336) = of_int 7742846306231899 * 2 powi (8 - 52)"
    by (rule dbl_eval [where e = "8" and n = 7742846306231899]) simp_all
  then show ?thesis by simp
qed

lemma dbl_c31: "dbl (167029 / 10000) = 73460131070319 / 4398046511104"
proof -
  have "dbl (167029 / 10000) = of_int 4701448388500416 * 2 powi (4 - 52)"
    by (rule dbl_eval [where e = "4" and n = 4701448388500416]) simp_all
  then show ?thesis by simp
qed

lemma dbl_c32: "dbl (568790504513130626326689905781 / 77371252455336267181195264) = 8082999223022549 / 1099511627776"
proof -
  have "dbl (568790504513130626326689905781 / 77371252455336267181195264) = of_int 8082999223022549 * 2 powi (12 - 52)"
    by (rule dbl_eval [where e = "12" and n = 8082999223022549]) simp_all
  then show ?thesis by simp
qed

lemma dbl_c33: "dbl (19061335826769260557563427047665 / 38685626227668133590597632) = 8464933565996651 / 17179869184"
proof -
  have "dbl (19061335826769260557563427047665 / 38685626227668133590597632) = of_int 8464933565996651 * 2 powi (18 - 52)"
    by (rule dbl_eval [where e = "18" and n = 8464933565996651]) simp_all
  then show ?thesis by simp
qed

lemma dbl_c34: "dbl (518403 / 10000) = 3647936808793355 / 70368744177664"
proof -
  have "dbl (518403 / 10000) = of_int 7295873617586710 * 2 powi (5 - 52)"
    by (rule dbl_eval [where e = "5" and n = 7295873617586710]) simp_all
  then show ?thesis by simp
qed

lemma dbl_c35: "dbl (30879542739389577756881281054105 / 1208925819614629174706176) = 3428317933916689 / 134217728"
proof -
  have "dbl (30879542739389577756881281054105 / 1208925819614629174706176) = of_int 6856635867833378 * 2 powi (24 - 52)"
    by (rule dbl_eval [where e = "24" and n = 6856635867833378]) simp_all
  then show ?thesis by simp
qed

lemma dbl_c36: "dbl (103907 / 2500) = 5849444081014827 / 140737488355328"
proof -
  have "dbl (103907 / 2500) = of_int 5849444081014827 * 2 powi (5 - 52)"
    by (rule dbl_eval [where e = "5" and n = 5849444081014827]) simp_all
  then show ?thesis by simp
qed

lemma dbl_c37: "dbl (20053754046385957288173991747803 / 18889465931478580854784) = 2226413947246759 / 2097152"
proof -
  have "dbl (20053754046385957288173991747803 / 18889465931478580854784) = of_int 8905655788987036 * 2 powi (29 - 52)"
    by (rule dbl_eval [where e = "29" and n = 8905655788987036]) simp_all
  then show ?thesis by simp
qed

lemma dbl_c38: "dbl (102249 / 1000) = 3597566861710983 / 35184372088832"
proof -
  have "dbl (102249 / 1000) = of_int 7195133723421966 * 2 powi (6 - 52)"
    by (rule dbl_eval [where e = "6" and n = 7195133723421966]) simp_all
  then show ?thesis by simp
qed

lemma dbl_c39: "dbl (8009673037066084835508841454097 / 73786976294838206464) = 3557009370188029 / 32768"
proof -
  have "dbl (8009673037066084835508841454097 / 73786976294838206464) = of_int 7114018740376058 * 2 powi (36 - 52)"
    by (rule dbl_eval [where e = "36" and n = 7114018740376058]) simp_all
  then show ?thesis by simp
qed

lemma dbl_c40: "dbl (508144195741147 / 32768) = 508144195741147 / 32768"
proof -
  have "dbl (508144195741147 / 32768) = of_int 8130307131858352 * 2 powi (33 - 52)"
    by (rule dbl_eval [where e = "33" and n = 8130307131858352]) simp_all
  then show ?thesis by simp
qed

lemma dbl_c41: "dbl (7) = 7"
proof -
  have "dbl (7) = of_int 7881299347898368 * 2 powi (2 - 52)"
    by (rule dbl_eval [where e = "2" and n = 7881299347898368]) simp_all
  then show ?thesis by simp
qed

lemma dbl_c42: "dbl (41782156494815812075 / 4096) = 10200721800492142"
proof -
  have "dbl (41782156494815812075 / 4096) = of_int 5100360900246071 * 2 powi (53 - 52)"
    by (rule dbl_eval [where e = "53" and n = 5100360900246071]) simp_all
  then show ?thesis by simp
qed

lemma dbl_c43: "dbl (71405052603444994) = 71405052603444992"
proof -
  have "dbl (71405052603444994) = of_int 8925631575430624 * 2 powi (55 - 52)"
    by (rule dbl_eval [where e = "55" and n = 8925631575430624]) simp_all
  then show ?thesis by simp
qed

lemma dbl_c44: "dbl (71405052603444992) = 71405052603444992"
proof -
  have "dbl (71405052603444992) = of_int 8925631575430624 * 2 powi (55 - 52)"
    by (rule dbl_eval [where e = "55" and n = 8925631575430624]) simp_all
  then show ?thesis by simp
qed

lemma dbl_c45: "dbl (2058110517102371498663966122947 / 288230376151711744) = 14281010520689 / 2"
proof -
  have "dbl (2058110517102371498663966122947 / 288230376151711744) = of_int 7311877386592768 * 2 powi (42 - 52)"
    by (rule dbl_eval [where e = "42" and n = 7311877386592768]) simp_all
  then show ?thesis by simp
qed

lemmas dbl_consts = dbl_c1 dbl_c2 dbl_c3 dbl_c4 dbl_c5 dbl_c6 dbl_c7 dbl_c8 dbl_c9 dbl_c10 dbl_c11 dbl_c12 dbl_c13 dbl_c14 dbl_c15 dbl_c16 dbl_c17 dbl_c18 dbl_c19 dbl_c20 dbl_c21 dbl_c22 dbl_c23 dbl_c24 dbl_c25 dbl_c26 dbl_c27 dbl_c28 dbl_c29 dbl_c30 dbl_c31 dbl_c32 dbl_c33 dbl_c34 dbl_c35 dbl_c36 dbl_c37 dbl_c38 dbl_c39 dbl_c40 dbl_c41 dbl_c42 dbl_c43 dbl_c44 dbl_c45


subsection \<open>Leaving out a guess\<close>









subsection \<open>Halving\<close>










subsection \<open>Concrete games\<close>

lemmas raw_eval = rawScore_def bruteforceDifficulty_def avrageLetterDifficulty_def
  turnCoefficient_def badGuessPenalty_def charnum_difficulty_at_def charnum_difficulty_def
  letter_difficulty_or_1_def letter_difficulty_def score_scale_def pow_half_def rnd_small
  dbl_consts








text \<open>
  The seven letters of \<open>carbpmv\<close> guessed in seven turns: every product is rounded,
  and the score is the one the server computes.
\<close>

lemma score_carbpmv:
  "score \<lparr>word = ''carbpmv'', turns = 7, charsNeeded = ''carbpmv'', charsGuessed = ''carbpmv''\<rparr>
     = Fin 7140505260345"
  by (simp add: score_def raw_eval floor_eq_iff)







end
